theory Spec2Isabelle
  imports Complex_Main "HOL-Library.Log_Nat"
begin

section \<open>JavaScript values and arrays\<close>

text \<open>
  The components are written in JavaScript with Flow types. A value of a nullable Flow
  type \<open>T | null\<close> (a prop such as \<open>selectedCallNodeIndex\<close>) is a \<open>T option\<close>,
  with \<open>None\<close> for \<open>null\<close>. A value the code reads out of an array may moreover be
  \<open>undefined\<close>; such values have the type \<open>'a js\<close>.

  Call-node indices, depths and column indices are JavaScript numbers that hold integers;
  they are \<open>int\<close>s, so that the parent pointer \<open>-1\<close> and the column \<open>-1\<close> that
  \<open>indexOf\<close> returns are values of the type. The start and end offsets of a flame-graph
  box are fractions of the viewport, and the code subtracts and compares them; they are
  IEEE 754 doubles, modelled in the next section.
\<close>

datatype 'a js = Undefined | Null | Val 'a

datatype js_error = TypeError

text \<open>\<open>xs[i]\<close>: reading an array outside its bounds gives \<open>undefined\<close>.\<close>

definition js_index :: "'a list \<Rightarrow> int \<Rightarrow> 'a js" where
  "js_index xs i = (if 0 \<le> i \<and> i < int (length xs) then Val (xs ! nat i) else Undefined)"

text \<open>
  \<open>Array.prototype.indexOf\<close>: the index of the first element equal to \<open>x\<close>, found by
  a scan from index 0, and \<open>-1\<close> when there is none.
\<close>

fun indexOf_from :: "'a list \<Rightarrow> 'a \<Rightarrow> int \<Rightarrow> int" where
  "indexOf_from [] x k = -1"
| "indexOf_from (y # ys) x k = (if y = x then k else indexOf_from ys x (k + 1))"

definition indexOf :: "'a list \<Rightarrow> 'a \<Rightarrow> int" where
  "indexOf xs x = indexOf_from xs x 0"

section \<open>Doubles\<close>

text \<open>
  A JavaScript number is an IEEE 754 binary64 value: a finite value, which is a rational
  \<open>m * 2 ^ e\<close> with \<open>\<bar>m\<bar> < 2 ^ 53\<close> and \<open>- 1074 \<le> e \<le> 971\<close>, an infinity, or
  \<open>NaN\<close>. The two zeros are one value here: the code only subtracts doubles and compares
  the difference with \<open>>\<close>, and neither tells \<open>-0\<close> from \<open>+0\<close>.
\<close>

datatype double = Finite rat | PosInfinity | NegInfinity | NaN

definition pow2 :: "int \<Rightarrow> rat" where
  "pow2 e = (if 0 \<le> e then 2 ^ nat e else 1 / 2 ^ nat (- e))"

text \<open>For \<open>0 < x\<close>, the exponent \<open>e\<close> with \<open>2 ^ e \<le> x < 2 ^ (e + 1)\<close>.\<close>

definition floor_log2 :: "rat \<Rightarrow> int" where
  "floor_log2 x = (if 1 \<le> x then bitlen \<lfloor>x\<rfloor> - 1 else - bitlen (\<lceil>1 / x\<rceil> - 1))"

text \<open>The nearest integer, and the even one of the two when \<open>x\<close> lies half way.\<close>

definition round_half_even :: "rat \<Rightarrow> int" where
  "round_half_even x =
     (if x - of_int \<lfloor>x\<rfloor> < 1 / 2 then \<lfloor>x\<rfloor>
      else if 1 / 2 < x - of_int \<lfloor>x\<rfloor> then \<lfloor>x\<rfloor> + 1
      else if even \<lfloor>x\<rfloor> then \<lfloor>x\<rfloor> else \<lfloor>x\<rfloor> + 1)"

text \<open>
  Rounding to nearest, ties to even, the rounding of every arithmetic operation and of a
  decimal literal: the spacing of the doubles around \<open>x\<close> is \<open>2 ^ (e - 52)\<close>, where \<open>e\<close>
  is the exponent of \<open>x\<close> and at least \<open>- 1022\<close> (below, the doubles are subnormal and
  evenly spaced); a result of \<open>2 ^ 1024\<close> or more in magnitude is an infinity.
\<close>

definition round_to_double :: "rat \<Rightarrow> double" where
  "round_to_double x =
     (if x = 0 then Finite 0
      else
        (let ulp = pow2 (max (floor_log2 \<bar>x\<bar>) (- 1022) - 52);
             y = of_int (round_half_even (\<bar>x\<bar> / ulp)) * ulp
         in if pow2 1024 \<le> y then (if 0 < x then PosInfinity else NegInfinity)
            else Finite (if 0 < x then y else - y)))"

text \<open>\<open>x - y\<close> on numbers.\<close>

definition double_sub :: "double \<Rightarrow> double \<Rightarrow> double" where
  "double_sub x y =
     (case x of
        NaN \<Rightarrow> NaN
      | PosInfinity \<Rightarrow> (case y of NaN \<Rightarrow> NaN | PosInfinity \<Rightarrow> NaN | _ \<Rightarrow> PosInfinity)
      | NegInfinity \<Rightarrow> (case y of NaN \<Rightarrow> NaN | NegInfinity \<Rightarrow> NaN | _ \<Rightarrow> NegInfinity)
      | Finite a \<Rightarrow>
          (case y of
             NaN \<Rightarrow> NaN
           | PosInfinity \<Rightarrow> NegInfinity
           | NegInfinity \<Rightarrow> PosInfinity
           | Finite b \<Rightarrow> round_to_double (a - b)))"

text \<open>\<open>x > y\<close> on numbers: false whenever either side is \<open>NaN\<close>.\<close>

definition double_gt :: "double \<Rightarrow> double \<Rightarrow> bool" where
  "double_gt x y =
     (case x of
        NaN \<Rightarrow> False
      | NegInfinity \<Rightarrow> False
      | PosInfinity \<Rightarrow> (case y of NaN \<Rightarrow> False | PosInfinity \<Rightarrow> False | _ \<Rightarrow> True)
      | Finite a \<Rightarrow>
          (case y of
             NaN \<Rightarrow> False
           | PosInfinity \<Rightarrow> False
           | NegInfinity \<Rightarrow> True
           | Finite b \<Rightarrow> b < a))"

text \<open>
  The conversion to a number that \<open>-\<close> applies to its operands: \<open>undefined\<close> becomes
  \<open>NaN\<close>, \<open>null\<close> becomes 0.
\<close>

definition to_number :: "double js \<Rightarrow> double" where
  "to_number v = (case v of Undefined \<Rightarrow> NaN | Null \<Rightarrow> Finite 0 | Val x \<Rightarrow> x)"

section \<open>The data model read by the components\<close>

text \<open>
  The call-node table, the flame-graph timing and the call tree are computed elsewhere and
  read here. Of the call-node table the code reads the columns \<open>prefix\<close> (the parent of
  each call node, \<open>-1\<close> for a root) and \<open>depth\<close>. A row of the flame-graph timing holds
  the parallel arrays \<open>start\<close>, \<open>end\<close> and \<open>callNode\<close>; there is one row per depth.
  Since \<open>end\<close> is a keyword here, the three fields of a row carry the prefix \<open>row_\<close>;
  the methods \<open>_wideEnough\<close>, \<open>_nextSelectableInRow\<close>, \<open>_handleKeyDown\<close>,
  \<open>_onCallNodeEnterOrDoubleClick\<close> and \<open>_heightFunction\<close> lose their leading underscore.
\<close>

record call_node_table =
  prefix :: "int list"
  depth :: "int list"

record call_node_info =
  callNodeTable :: call_node_table

record flame_graph_row =
  row_start :: "double list"
  row_end :: "double list"
  row_callNode :: "int list"

record 'b call_tree =
  getChildren :: "int \<Rightarrow> int list"
  getBottomBoxInfoForCallNode :: "int \<Rightarrow> 'b"

record keyboard_event =
  key :: string

record ('k, 'b) flame_graph_props =
  threadsKey :: 'k
  flameGraphTiming :: "flame_graph_row list"
  callTree :: "'b call_tree"
  callNodeInfo :: call_node_info
  selectedCallNodeIndex :: "int option"
  rightClickedCallNodeIndex :: "int option"

text \<open>
  What the key handler does to the outside: the actions it hands to the dispatcher, and the
  line it writes with \<open>console.error\<close>, in the order of the calls. The path of a call
  node is computed by \<open>getCallNodePathFromIndex\<close>, which is imported from the profile
  logic; the handler takes it as the parameter \<open>getCallNodePathFromIndex\<close>.
\<close>

datatype ('k, 'p, 'b) effect =
    ChangeSelectedCallNode 'k 'p
  | HandleCallNodeTransformShortcut keyboard_event 'k int
  | UpdateBottomBoxContentsAndMaybeOpen string 'b
  | ConsoleError string

section \<open>FlameGraph\<close>

text \<open>
  \<open>const SELECTABLE_THRESHOLD = 0.001\<close>: the double that the literal denotes, which is
  \<open>1152921504606847 / 2 ^ 60\<close> (\<open>SELECTABLE_THRESHOLD_value\<close> below), a little more than
  one thousandth.
\<close>

definition SELECTABLE_THRESHOLD :: double where
  "SELECTABLE_THRESHOLD = round_to_double (1 / 1000)"

text \<open>
  \<open>row.end[columnIndex] - row.start[columnIndex] > SELECTABLE_THRESHOLD\<close>: the
  difference is rounded to a double before the comparison; when either read is out of
  range the difference is \<open>NaN\<close> and the comparison is false.
\<close>

definition box_wide :: "flame_graph_row \<Rightarrow> int \<Rightarrow> bool" where
  "box_wide row columnIndex =
     double_gt
       (double_sub (to_number (js_index (row_end row) columnIndex))
                   (to_number (js_index (row_start row) columnIndex)))
       SELECTABLE_THRESHOLD"

text \<open>
  The row of a call node: \<open>flameGraphTiming[callNodeTable.depth[callNodeIndex]]\<close>. When
  the depth or the row is \<open>undefined\<close>, the read of \<open>row.callNode\<close> that follows
  throws a \<open>TypeError\<close>.
\<close>

definition row_of :: "('k, 'b) flame_graph_props \<Rightarrow> int \<Rightarrow> js_error + flame_graph_row" where
  "row_of props callNodeIndex =
     (case js_index (depth (callNodeTable (callNodeInfo props))) callNodeIndex of
        Val d \<Rightarrow>
          (case js_index (flameGraphTiming props) d of
             Val row \<Rightarrow> Inr row
           | _ \<Rightarrow> Inl TypeError)
      | _ \<Rightarrow> Inl TypeError)"

definition wideEnough :: "('k, 'b) flame_graph_props \<Rightarrow> int \<Rightarrow> js_error + bool" where
  "wideEnough props callNodeIndex =
     (case row_of props callNodeIndex of
        Inl e \<Rightarrow> Inl e
      | Inr row \<Rightarrow> Inr (box_wide row (indexOf (row_callNode row) callNodeIndex)))"

text \<open>
  The \<open>do ... while\<close> loop of \<open>_nextSelectableInRow\<close>, from the column index before the
  first step. Nothing in the loop bounds the number of iterations (with a direction of 0
  it can run forever), so it is a partial function: \<open>None\<close> is a loop that does not end.
\<close>

partial_function (option) nextSelectable_loop ::
  "flame_graph_row \<Rightarrow> int \<Rightarrow> int \<Rightarrow> int js option" where
  "nextSelectable_loop row direction columnIndex =
     (if box_wide row (columnIndex + direction)
      then Some (js_index (row_callNode row) (columnIndex + direction))
      else if js_index (row_callNode row) (columnIndex + direction) \<noteq> Undefined
      then nextSelectable_loop row direction (columnIndex + direction)
      else Some (js_index (row_callNode row) (columnIndex + direction)))"

declare nextSelectable_loop.simps [code]

text \<open>The same loop, stopped after at most \<open>n\<close> iterations: \<open>None\<close> when it has not ended by then.\<close>

fun nextSelectable_steps :: "nat \<Rightarrow> flame_graph_row \<Rightarrow> int \<Rightarrow> int \<Rightarrow> int js option" where
  "nextSelectable_steps 0 row direction columnIndex = None"
| "nextSelectable_steps (Suc n) row direction columnIndex =
     (if box_wide row (columnIndex + direction)
      then Some (js_index (row_callNode row) (columnIndex + direction))
      else if js_index (row_callNode row) (columnIndex + direction) \<noteq> Undefined
      then nextSelectable_steps n row direction (columnIndex + direction)
      else Some (js_index (row_callNode row) (columnIndex + direction)))"

definition nextSelectableInRow ::
  "('k, 'b) flame_graph_props \<Rightarrow> int \<Rightarrow> int \<Rightarrow> (js_error + int js) option" where
  "nextSelectableInRow props startingCallNodeIndex direction =
     (case row_of props startingCallNodeIndex of
        Inl e \<Rightarrow> Some (Inl e)
      | Inr row \<Rightarrow>
          map_option Inr
            (nextSelectable_loop row direction
               (indexOf (row_callNode row) startingCallNodeIndex)))"

definition onCallNodeEnterOrDoubleClick ::
  "('k, 'b) flame_graph_props \<Rightarrow> int option \<Rightarrow> ('k, 'p, 'b) effect list" where
  "onCallNodeEnterOrDoubleClick props callNodeIndex =
     (case callNodeIndex of
        None \<Rightarrow> []
      | Some i \<Rightarrow>
          [UpdateBottomBoxContentsAndMaybeOpen ''flame-graph''
             (getBottomBoxInfoForCallNode (callTree props) i)])"

definition unknown_key_message :: "string \<Rightarrow> string" where
  "unknown_key_message k =
     ''An unknown key '' @ [CHR 0x22] @ k @ [CHR 0x22] @
     '' was pressed, this shouldn'' @ [CHR 0x27] @ ''t happen.''"

text \<open>
  \<open>_handleKeyDown\<close>. The result is \<open>None\<close> when the handler does not return,
  \<open>Some (Inl e)\<close> when it throws \<open>e\<close>, and \<open>Some (Inr effs)\<close> when it returns after the
  effects \<open>effs\<close>. The props are read only: the selection changes only when the
  dispatcher receives a \<open>ChangeSelectedCallNode\<close>.
\<close>

definition handleKeyDown ::
  "(int js \<Rightarrow> call_node_table \<Rightarrow> 'p) \<Rightarrow> ('k, 'b) flame_graph_props \<Rightarrow> keyboard_event
     \<Rightarrow> (js_error + ('k, 'p, 'b) effect list) option" where
  "handleKeyDown getCallNodePathFromIndex props event =
     (if key event \<in> set [''ArrowDown'', ''ArrowUp'', ''ArrowLeft'', ''ArrowRight''] then
        (case selectedCallNodeIndex props of
           None \<Rightarrow>
             Some (Inr [ChangeSelectedCallNode (threadsKey props)
               (getCallNodePathFromIndex (Val 0) (callNodeTable (callNodeInfo props)))])
         | Some selected \<Rightarrow>
             if key event = ''ArrowDown'' then
               (let prefix' = js_index (prefix (callNodeTable (callNodeInfo props))) selected in
                if prefix' \<noteq> Val (- 1) then
                  Some (Inr [ChangeSelectedCallNode (threadsKey props)
                    (getCallNodePathFromIndex prefix' (callNodeTable (callNodeInfo props)))])
                else Some (Inr []))
             else if key event = ''ArrowUp'' then
               (case js_index (getChildren (callTree props) selected) 0 of
                  Val callNodeIndex \<Rightarrow>
                    (case wideEnough props callNodeIndex of
                       Inl e \<Rightarrow> Some (Inl e)
                     | Inr w \<Rightarrow>
                         if w then
                           Some (Inr [ChangeSelectedCallNode (threadsKey props)
                             (getCallNodePathFromIndex (Val callNodeIndex)
                                (callNodeTable (callNodeInfo props)))])
                         else Some (Inr []))
                | _ \<Rightarrow> Some (Inr []))
             else if key event = ''ArrowLeft'' \<or> key event = ''ArrowRight'' then
               (case nextSelectableInRow props selected
                       (if key event = ''ArrowLeft'' then - 1 else 1) of
                  None \<Rightarrow> None
                | Some (Inl e) \<Rightarrow> Some (Inl e)
                | Some (Inr callNodeIndex) \<Rightarrow>
                    if callNodeIndex \<noteq> Undefined then
                      Some (Inr [ChangeSelectedCallNode (threadsKey props)
                        (getCallNodePathFromIndex callNodeIndex
                           (callNodeTable (callNodeInfo props)))])
                    else Some (Inr []))
             else Some (Inr [ConsoleError (unknown_key_message (key event))]))
      else
        (case (case rightClickedCallNodeIndex props of
                 Some r \<Rightarrow> Some r
               | None \<Rightarrow> selectedCallNodeIndex props) of
           None \<Rightarrow> Some (Inr [])
         | Some nodeIndex \<Rightarrow>
             if key event = ''Enter'' then
               Some (Inr (onCallNodeEnterOrDoubleClick props (Some nodeIndex)))
             else
               Some (Inr [HandleCallNodeTransformShortcut event (threadsKey props) nodeIndex])))"

section \<open>StackGraph\<close>

record stack_graph_props =
  sg_callNodeInfo :: call_node_info
  sampleCallNodes :: "int option list"

text \<open>
  \<open>_heightFunction\<close>: the result is \<open>null\<close>, a depth, or \<open>undefined\<close> (a read out of
  range, which is not \<open>null\<close> and so goes on to the read of the depth column).
\<close>

definition heightFunction :: "stack_graph_props \<Rightarrow> int \<Rightarrow> int js" where
  "heightFunction props sampleIndex =
     (case js_index (sampleCallNodes props) sampleIndex of
        Val None \<Rightarrow> Null
      | Val (Some callNodeIndex) \<Rightarrow>
          js_index (depth (callNodeTable (sg_callNodeInfo props))) callNodeIndex
      | _ \<Rightarrow> Undefined)"

text \<open>The \<open>for\<close> loop of \<open>render\<close> from index \<open>i\<close> on, with the running maximum.\<close>

function maxDepth_loop :: "int list \<Rightarrow> nat \<Rightarrow> int \<Rightarrow> int" where
  "maxDepth_loop depths i maxDepth =
     (if i < length depths then
        maxDepth_loop depths (i + 1) (if depths ! i > maxDepth then depths ! i else maxDepth)
      else maxDepth)"
  by pat_completeness auto
termination
  by (relation "measure (\<lambda>(depths, i, maxDepth). length depths - i)") auto

declare maxDepth_loop.simps [simp del]

text \<open>The \<open>maxValue\<close> that \<open>render\<close> passes to \<open>ThreadHeightGraph\<close>.\<close>

definition render_maxValue :: "stack_graph_props \<Rightarrow> int" where
  "render_maxValue props =
     maxDepth_loop (depth (callNodeTable (sg_callNodeInfo props))) 0 0"

section \<open>Well-formed timing data\<close>

text \<open>
  The notions the properties below are stated with, written over the lists themselves.
  \<open>timing_row props n row\<close>: the call node \<open>n\<close> is an index of the depth column and
  \<open>row\<close> is the row of the flame-graph timing at its depth.
\<close>

definition timing_row :: "('k, 'b) flame_graph_props \<Rightarrow> int \<Rightarrow> flame_graph_row \<Rightarrow> bool" where
  "timing_row props n row =
     (0 \<le> n \<and> n < int (length (depth (callNodeTable (callNodeInfo props)))) \<and>
      0 \<le> depth (callNodeTable (callNodeInfo props)) ! nat n \<and>
      depth (callNodeTable (callNodeInfo props)) ! nat n < int (length (flameGraphTiming props)) \<and>
      row = flameGraphTiming props ! nat (depth (callNodeTable (callNodeInfo props)) ! nat n))"

text \<open>\<open>column_of row n c\<close>: column \<open>c\<close> is the first column of \<open>row\<close> that holds the call node \<open>n\<close>.\<close>

definition column_of :: "flame_graph_row \<Rightarrow> int \<Rightarrow> nat \<Rightarrow> bool" where
  "column_of row n c =
     (c < length (row_callNode row) \<and> row_callNode row ! c = n \<and>
      n \<notin> set (take c (row_callNode row)))"

text \<open>The three arrays of a row are parallel: they have one entry per box.\<close>

definition parallel_arrays :: "flame_graph_row \<Rightarrow> bool" where
  "parallel_arrays row =
     (length (row_start row) = length (row_callNode row) \<and>
      length (row_end row) = length (row_callNode row))"

text \<open>The width of the box in column \<open>c\<close>: end minus start, as the double it is.\<close>

definition box_width :: "flame_graph_row \<Rightarrow> nat \<Rightarrow> double" where
  "box_width row c = double_sub (row_end row ! c) (row_start row ! c)"

text \<open>
  \<open>scan_start row n c\<close>: \<open>c\<close> is the column a linear scan of the row gives for the call
  node \<open>n\<close>, which is the first column that holds \<open>n\<close>, or \<open>-1\<close> when no column does.
\<close>

definition scan_start :: "flame_graph_row \<Rightarrow> int \<Rightarrow> int \<Rightarrow> bool" where
  "scan_start row n c =
     ((0 \<le> c \<and> column_of row n (nat c)) \<or> (c = - 1 \<and> n \<notin> set (row_callNode row)))"

text \<open>
  \<open>no_timing_row props n\<close>: the call node \<open>n\<close> has no row, because it is outside the
  depth column or because the flame-graph timing has no row at its depth.
\<close>

definition no_timing_row :: "('k, 'b) flame_graph_props \<Rightarrow> int \<Rightarrow> bool" where
  "no_timing_row props n =
     (\<not> (0 \<le> n \<and> n < int (length (depth (callNodeTable (callNodeInfo props)))) \<and>
         0 \<le> depth (callNodeTable (callNodeInfo props)) ! nat n \<and>
         depth (callNodeTable (callNodeInfo props)) ! nat n < int (length (flameGraphTiming props))))"

section \<open>Example data\<close>

text \<open>
  A root (call node 0) with four children at depth 1, whose boxes are \<open>[0, 0.0995]\<close>,
  \<open>[0.0995, 0.1]\<close>, \<open>[0.1, 0.101]\<close> and \<open>[0.101, 0.1015]\<close>, each bound being the
  double its decimal literal denotes (\<open>0.0995 = 199 / 2000\<close>, \<open>0.1015 = 203 / 2000\<close>).
  The boxes of the call nodes 2 and 4 are about 0.0005 wide, below the threshold. The box
  of call node 3 is \<open>0.0010000000000000009\<close> wide, above the threshold, although
  \<open>0.101 - 0.1\<close> is not more than \<open>0.001\<close> in exact arithmetic.
  \<open>getChildren\<close> lists the children by descending total time.
\<close>

definition example_table :: call_node_table where
  "example_table = \<lparr>prefix = [- 1, 0, 0, 0, 0], depth = [0, 1, 1, 1, 1]\<rparr>"

definition example_row0 :: flame_graph_row where
  "example_row0 = \<lparr>row_start = [Finite 0], row_end = [Finite 1], row_callNode = [0]\<rparr>"

definition example_row1 :: flame_graph_row where
  "example_row1 =
     \<lparr>row_start =
        [Finite 0, round_to_double (199 / 2000), round_to_double (1 / 10),
         round_to_double (101 / 1000)],
      row_end =
        [round_to_double (199 / 2000), round_to_double (1 / 10), round_to_double (101 / 1000),
         round_to_double (203 / 2000)],
      row_callNode = [1, 2, 3, 4]\<rparr>"

definition example_tree :: "int call_tree" where
  "example_tree =
     \<lparr>getChildren = (\<lambda>i. if i = 0 then [1, 3, 2, 4] else []),
      getBottomBoxInfoForCallNode = (\<lambda>i. i + 100)\<rparr>"

definition example_props :: "int option \<Rightarrow> int option \<Rightarrow> (string, int) flame_graph_props" where
  "example_props selected rightClicked =
     \<lparr>threadsKey = ''thread-0'',
      flameGraphTiming = [example_row0, example_row1],
      callTree = example_tree,
      callNodeInfo = \<lparr>callNodeTable = example_table\<rparr>,
      selectedCallNodeIndex = selected,
      rightClickedCallNodeIndex = rightClicked\<rparr>"

text \<open>A stand-in for \<open>getCallNodePathFromIndex\<close> that keeps the index it is given.\<close>

definition index_as_path :: "int js \<Rightarrow> call_node_table \<Rightarrow> int js" where
  "index_as_path callNodeIndex table = callNodeIndex"

text \<open>
  Two roots, of which only call node 0 has a box, a narrow one (\<open>[0, 0.0005]\<close>): call
  node 1 is in the call-node table and absent from the row of its depth, and its child,
  call node 2, has depth 1, at which the flame-graph timing has no row.
\<close>

definition narrow_row :: flame_graph_row where
  "narrow_row =
     \<lparr>row_start = [Finite 0], row_end = [round_to_double (1 / 2000)], row_callNode = [0]\<rparr>"

definition absent_props :: "(string, int) flame_graph_props" where
  "absent_props =
     \<lparr>threadsKey = ''thread-0'',
      flameGraphTiming = [narrow_row],
      callTree = \<lparr>getChildren = (\<lambda>i. []), getBottomBoxInfoForCallNode = (\<lambda>i. i)\<rparr>,
      callNodeInfo = \<lparr>callNodeTable = \<lparr>prefix = [- 1, - 1, 1], depth = [0, 0, 1]\<rparr>\<rparr>,
      selectedCallNodeIndex = Some 1,
      rightClickedCallNodeIndex = None\<rparr>"

definition example_stack_props :: stack_graph_props where
  "example_stack_props =
     \<lparr>sg_callNodeInfo = \<lparr>callNodeTable = example_table\<rparr>,
      sampleCallNodes = [Some 1, None, Some 4, Some 0]\<rparr>"

lemmas example_defs =
  example_props_def example_table_def example_row0_def example_row1_def example_tree_def
  index_as_path_def

section \<open>Rounding, evaluated\<close>

text \<open>
  What \<open>round_to_double\<close> gives is fixed by two bounds: the exponent \<open>e\<close> of \<open>x\<close> and an
  integer \<open>m\<close> less than half a unit away from \<open>x\<close> in units of \<open>2 ^ (e - 52)\<close>.
\<close>

lemma bitlen_eqI: "2 ^ n \<le> x \<Longrightarrow> x < 2 ^ (n + 1) \<Longrightarrow> bitlen x = int n + 1"
  using bitlen_twopow_add_eq [of "x - 2 ^ n" n] by simp

lemma pow2_pos: "0 < pow2 e"
  by (simp add: pow2_def)

lemma pow2_nat: "pow2 (int n) = 2 ^ n"
  by (simp add: pow2_def)

lemma pow2_neg: "0 < n \<Longrightarrow> pow2 (- int n) = 1 / 2 ^ n"
  by (simp add: pow2_def)

lemma pow2_le_one: "e < 0 \<Longrightarrow> pow2 e < 1"
  by (simp add: pow2_def)

lemma floor_log2_eqI:
  assumes lo: "pow2 e \<le> x" and hi: "x < pow2 (e + 1)"
  shows "floor_log2 x = e"
proof (cases "1 \<le> x")
  case True
  have "0 \<le> e"
  proof (rule ccontr)
    assume "\<not> 0 \<le> e"
    then have "e + 1 \<le> 0" by simp
    then have "pow2 (e + 1) \<le> 1" by (auto simp add: pow2_def divide_le_eq_1)
    with hi True show False by simp
  qed
  then obtain n where e: "e = int n" by (metis nat_0_le)
  from lo have "(2::rat) ^ n \<le> x" by (simp add: e pow2_nat)
  then have "of_int (2 ^ n) \<le> x" by simp
  then have a: "2 ^ n \<le> \<lfloor>x\<rfloor>" by (simp only: le_floor_iff)
  have "pow2 (e + 1) = 2 ^ (n + 1)" by (simp add: e pow2_def nat_add_distrib)
  with hi have "x < 2 ^ (n + 1)" by simp
  then have "x < of_int (2 ^ (n + 1))" by simp
  then have b: "\<lfloor>x\<rfloor> < 2 ^ (n + 1)" by (simp only: floor_less_iff)
  from bitlen_eqI [OF a b] True show ?thesis by (simp add: floor_log2_def e)
next
  case False
  then have x1: "x < 1" by simp
  from lo pow2_pos [of e] have x0: "0 < x" by simp
  have "e < 0"
  proof (rule ccontr)
    assume "\<not> e < 0"
    then have "1 \<le> pow2 e" by (simp add: pow2_def)
    with lo x1 show False by simp
  qed
  then obtain n where e: "e = - int (Suc n)"
    by (metis add.inverse_inverse neg_0_less_iff_less zero_less_imp_eq_int gr0_implies_Suc)
  from lo have lo': "1 / 2 ^ Suc n \<le> x" using pow2_neg [of "Suc n"] by (simp add: e)
  have hi': "x < 1 / 2 ^ n"
  proof (cases n)
    case 0
    with x1 show ?thesis by simp
  next
    case (Suc k)
    have "e + 1 = - int n" by (simp add: e)
    with hi pow2_neg [of n] Suc show ?thesis by simp
  qed
  from lo' x0 have u: "1 / x \<le> 2 ^ Suc n"
    by (simp add: field_simps)
  from hi' x0 have l: "2 ^ n < 1 / x"
    by (simp add: field_simps)
  from u have "1 / x \<le> of_int (2 ^ Suc n)" by simp
  then have "\<lceil>1 / x\<rceil> \<le> 2 ^ Suc n" by (simp only: ceiling_le_iff)
  then have b: "\<lceil>1 / x\<rceil> - 1 < 2 ^ (n + 1)" by simp
  from l have "of_int (2 ^ n) < 1 / x" by simp
  then have "2 ^ n < \<lceil>1 / x\<rceil>" by (simp only: less_ceiling_iff)
  then have a: "2 ^ n \<le> \<lceil>1 / x\<rceil> - 1" by simp
  from bitlen_eqI [OF a b] False show ?thesis by (simp add: floor_log2_def e)
qed

lemma round_half_even_eqI:
  assumes "\<bar>y - of_int m\<bar> < 1 / 2"
  shows "round_half_even y = m"
proof -
  from assms have l: "of_int m - 1 / 2 < y" and u: "y < of_int m + 1 / 2" by linarith+
  have f: "\<lfloor>y\<rfloor> = m \<or> \<lfloor>y\<rfloor> = m - 1"
  proof -
    from l have "of_int (m - 1) \<le> y" by simp
    then have "m - 1 \<le> \<lfloor>y\<rfloor>" by (simp only: le_floor_iff)
    moreover from u have "y < of_int (m + 1)" by simp
    then have "\<lfloor>y\<rfloor> < m + 1" by (simp only: floor_less_iff)
    ultimately show ?thesis by arith
  qed
  then show ?thesis
  proof
    assume e: "\<lfloor>y\<rfloor> = m"
    with u have "y - of_int \<lfloor>y\<rfloor> < 1 / 2" by simp
    with e show ?thesis by (simp add: round_half_even_def)
  next
    assume e: "\<lfloor>y\<rfloor> = m - 1"
    with l have "1 / 2 < y - of_int \<lfloor>y\<rfloor>" by simp
    with e show ?thesis by (simp add: round_half_even_def)
  qed
qed

lemma round_to_double_eqI:
  assumes x: "0 < x"
    and lo: "pow2 e \<le> x" and hi: "x < pow2 (e + 1)"
    and e: "- 1022 \<le> e"
    and m: "\<bar>x / pow2 (e - 52) - of_int m\<bar> < 1 / 2"
    and fin: "of_int m * pow2 (e - 52) < pow2 1024"
  shows "round_to_double x = Finite (of_int m * pow2 (e - 52))"
proof -
  from x have a: "\<bar>x\<bar> = x" by simp
  from floor_log2_eqI [OF lo hi] e have "max (floor_log2 \<bar>x\<bar>) (- 1022) = e" by (simp add: a)
  moreover from m have "round_half_even (x / pow2 (e - 52)) = m" by (rule round_half_even_eqI)
  ultimately show ?thesis using x fin by (simp add: round_to_double_def a Let_def)
qed

text \<open>
  The doubles that the decimal literals of the examples denote, and their differences. The
  denominators are \<open>2 ^ 60\<close> (0.001), \<open>2 ^ 55\<close> (0.0995, 0.1, 0.101 and 0.1015) and
  \<open>2 ^ 61\<close> (0.0005), written out.
\<close>

lemma double_0_001: "round_to_double (1 / 1000) = Finite (1152921504606847 / 1152921504606846976)"
proof -
  have "round_to_double (1 / 1000) = Finite (of_int 4611686018427388 * pow2 (- 10 - 52))"
    by (rule round_to_double_eqI) (simp_all add: pow2_def)
  then show ?thesis by (simp add: pow2_def)
qed

lemma double_0_0995: "round_to_double (199 / 2000) = Finite (3584865303386915 / 36028797018963968)"
proof -
  have "round_to_double (199 / 2000) = Finite (of_int 7169730606773830 * pow2 (- 4 - 52))"
    by (rule round_to_double_eqI) (simp_all add: pow2_def)
  then show ?thesis by (simp add: pow2_def)
qed

lemma double_0_1: "round_to_double (1 / 10) = Finite (3602879701896397 / 36028797018963968)"
proof -
  have "round_to_double (1 / 10) = Finite (of_int 7205759403792794 * pow2 (- 4 - 52))"
    by (rule round_to_double_eqI) (simp_all add: pow2_def)
  then show ?thesis by (simp add: pow2_def)
qed

lemma double_0_101: "round_to_double (101 / 1000) = Finite (3638908498915361 / 36028797018963968)"
proof -
  have "round_to_double (101 / 1000) = Finite (of_int 7277816997830722 * pow2 (- 4 - 52))"
    by (rule round_to_double_eqI) (simp_all add: pow2_def)
  then show ?thesis by (simp add: pow2_def)
qed

lemma double_0_1015: "round_to_double (203 / 2000) = Finite (3656922897424843 / 36028797018963968)"
proof -
  have "round_to_double (203 / 2000) = Finite (of_int 7313845794849686 * pow2 (- 4 - 52))"
    by (rule round_to_double_eqI) (simp_all add: pow2_def)
  then show ?thesis by (simp add: pow2_def)
qed

lemma double_0_0005: "round_to_double (1 / 2000) = Finite (1152921504606847 / 2305843009213693952)"
proof -
  have "round_to_double (1 / 2000) = Finite (of_int 4611686018427388 * pow2 (- 11 - 52))"
    by (rule round_to_double_eqI) (simp_all add: pow2_def)
  then show ?thesis by (simp add: pow2_def)
qed

lemma sub_0_0995_0: "double_sub (Finite (3584865303386915 / 36028797018963968)) (Finite 0) = Finite (3584865303386915 / 36028797018963968)"
proof -
  have "round_to_double ((3584865303386915 / 36028797018963968) - 0) = Finite (of_int 7169730606773830 * pow2 (- 4 - 52))"
    by (rule round_to_double_eqI) (simp_all add: pow2_def)
  then show ?thesis by (simp add: double_sub_def pow2_def)
qed

lemma sub_0_1_0_0995: "double_sub (Finite (3602879701896397 / 36028797018963968)) (Finite (3584865303386915 / 36028797018963968)) = Finite (9007199254741 / 18014398509481984)"
proof -
  have "round_to_double ((3602879701896397 / 36028797018963968) - (3584865303386915 / 36028797018963968)) = Finite (of_int 4611686018427392 * pow2 (- 11 - 52))"
    by (rule round_to_double_eqI) (simp_all add: pow2_def)
  then show ?thesis by (simp add: double_sub_def pow2_def)
qed

lemma sub_0_101_0_1: "double_sub (Finite (3638908498915361 / 36028797018963968)) (Finite (3602879701896397 / 36028797018963968)) = Finite (9007199254741 / 9007199254740992)"
proof -
  have "round_to_double ((3638908498915361 / 36028797018963968) - (3602879701896397 / 36028797018963968)) = Finite (of_int 4611686018427392 * pow2 (- 10 - 52))"
    by (rule round_to_double_eqI) (simp_all add: pow2_def)
  then show ?thesis by (simp add: double_sub_def pow2_def)
qed

lemma sub_0_1015_0_101: "double_sub (Finite (3656922897424843 / 36028797018963968)) (Finite (3638908498915361 / 36028797018963968)) = Finite (9007199254741 / 18014398509481984)"
proof -
  have "round_to_double ((3656922897424843 / 36028797018963968) - (3638908498915361 / 36028797018963968)) = Finite (of_int 4611686018427392 * pow2 (- 11 - 52))"
    by (rule round_to_double_eqI) (simp_all add: pow2_def)
  then show ?thesis by (simp add: double_sub_def pow2_def)
qed

lemma sub_0_0005_0: "double_sub (Finite (1152921504606847 / 2305843009213693952)) (Finite 0) = Finite (1152921504606847 / 2305843009213693952)"
proof -
  have "round_to_double ((1152921504606847 / 2305843009213693952) - 0) = Finite (of_int 4611686018427388 * pow2 (- 11 - 52))"
    by (rule round_to_double_eqI) (simp_all add: pow2_def)
  then show ?thesis by (simp add: double_sub_def pow2_def)
qed

lemma SELECTABLE_THRESHOLD_value:
  "SELECTABLE_THRESHOLD = Finite (1152921504606847 / 1152921504606846976)"
  by (simp only: SELECTABLE_THRESHOLD_def double_0_001)

text \<open>A box \<open>[0, 0.001]\<close> is exactly as wide as the threshold, and so not wide enough.\<close>

lemma threshold_box_is_narrow:
  "\<not> double_gt (double_sub (round_to_double (1 / 1000)) (Finite 0)) SELECTABLE_THRESHOLD"
proof -
  have "round_to_double (1152921504606847 / 1152921504606846976 - 0)
      = Finite (of_int 4611686018427388 * pow2 (- 10 - 52))"
    by (rule round_to_double_eqI) (simp_all add: pow2_def)
  then show ?thesis
    by (simp add: SELECTABLE_THRESHOLD_value double_0_001 double_sub_def double_gt_def pow2_def)
qed

lemma example_row1_boxes:
  "double_gt (box_width example_row1 0) SELECTABLE_THRESHOLD"
  "\<not> double_gt (box_width example_row1 (Suc 0)) SELECTABLE_THRESHOLD"
  "double_gt (box_width example_row1 2) SELECTABLE_THRESHOLD"
  "\<not> double_gt (box_width example_row1 3) SELECTABLE_THRESHOLD"
  by (simp_all add: box_width_def example_row1_def SELECTABLE_THRESHOLD_value
      double_0_0995 double_0_1 double_0_101 double_0_1015
      sub_0_0995_0 sub_0_1_0_0995 sub_0_101_0_1 sub_0_1015_0_101 double_gt_def)

lemma narrow_row_box: "\<not> double_gt (box_width narrow_row 0) SELECTABLE_THRESHOLD"
  by (simp add: box_width_def narrow_row_def SELECTABLE_THRESHOLD_value
      double_0_0005 sub_0_0005_0 double_gt_def)

section \<open>Arrays and the scan loop\<close>

lemma indexOf_from_first:
  "c < length xs \<Longrightarrow> xs ! c = x \<Longrightarrow> x \<notin> set (take c xs) \<Longrightarrow> indexOf_from xs x k = k + int c"
proof (induction xs arbitrary: c k)
  case Nil
  then show ?case by simp
next
  case (Cons y ys)
  show ?case
  proof (cases c)
    case 0
    with Cons.prems show ?thesis by simp
  next
    case (Suc c')
    with Cons.prems have "y \<noteq> x" and "c' < length ys" and "ys ! c' = x" and "x \<notin> set (take c' ys)"
      by auto
    with Cons.IH [of c' "k + 1"] Suc show ?thesis by simp
  qed
qed

lemma indexOf_column: "column_of row n c \<Longrightarrow> indexOf (row_callNode row) n = int c"
  using indexOf_from_first [of c "row_callNode row" n 0]
  by (simp add: column_of_def indexOf_def)

lemma indexOf_from_absent: "x \<notin> set xs \<Longrightarrow> indexOf_from xs x k = - 1"
  by (induction xs arbitrary: k) auto

lemma indexOf_absent: "x \<notin> set xs \<Longrightarrow> indexOf xs x = - 1"
  by (simp add: indexOf_def indexOf_from_absent)


lemma indexOf_from_present: "x \<in> set xs \<Longrightarrow> 0 \<le> k \<Longrightarrow> 0 \<le> indexOf_from xs x k"
proof (induction xs arbitrary: k)
  case Nil
  then show ?case by simp
next
  case (Cons y ys)
  show ?case
  proof (cases "y = x")
    case True
    with Cons.prems show ?thesis by simp
  next
    case False
    with Cons.prems have "x \<in> set ys" and "0 \<le> k + 1" by simp_all
    then have "0 \<le> indexOf_from ys x (k + 1)" by (rule Cons.IH)
    with False show ?thesis by simp
  qed
qed


lemma indexOf_present: "x \<in> set xs \<Longrightarrow> 0 \<le> indexOf xs x"
  by (simp add: indexOf_def indexOf_from_present)

lemma row_of_timing_row: "timing_row props n row \<Longrightarrow> row_of props n = Inr row"
  by (simp add: timing_row_def row_of_def js_index_def)

lemma row_of_no_timing_row: "no_timing_row props n \<Longrightarrow> row_of props n = Inl TypeError"
  by (auto simp add: no_timing_row_def row_of_def js_index_def split: js.splits)

lemma indexOf_scan_start:
  assumes "scan_start row n c"
  shows "indexOf (row_callNode row) n = c" and "- 1 \<le> c" and "c < int (length (row_callNode row))"
proof -
  from assms consider (present) "0 \<le> c" "column_of row n (nat c)"
    | (absent) "c = - 1" "n \<notin> set (row_callNode row)"
    by (auto simp add: scan_start_def)
  then have "indexOf (row_callNode row) n = c \<and> - 1 \<le> c \<and> c < int (length (row_callNode row))"
  proof cases
    case present
    from indexOf_column [OF present(2)] present(1)
    have "indexOf (row_callNode row) n = c" by simp
    moreover from present(2) have "nat c < length (row_callNode row)" by (simp add: column_of_def)
    ultimately show ?thesis using present(1) by simp
  next
    case absent
    from indexOf_absent [OF absent(2)] absent(1) show ?thesis by simp
  qed
  then show "indexOf (row_callNode row) n = c" and "- 1 \<le> c"
    and "c < int (length (row_callNode row))" by simp_all
qed

lemma box_wide_column:
  "parallel_arrays row \<Longrightarrow> c < length (row_callNode row) \<Longrightarrow>
     box_wide row (int c) = double_gt (box_width row c) SELECTABLE_THRESHOLD"
  by (simp add: parallel_arrays_def box_wide_def box_width_def js_index_def to_number_def)


lemma steps_imp_loop:
  "nextSelectable_steps n row d c = Some v \<Longrightarrow> nextSelectable_loop row d c = Some v"
proof (induction n arbitrary: c)
  case 0
  then show ?case by simp
next
  case (Suc n)
  show ?case
  proof (cases "\<not> box_wide row (c + d) \<and> js_index (row_callNode row) (c + d) \<noteq> Undefined")
    case True
    with Suc.prems have "nextSelectable_steps n row d (c + d) = Some v" by simp
    then have "nextSelectable_loop row d (c + d) = Some v" by (rule Suc.IH)
    with True show ?thesis by (subst nextSelectable_loop.simps) simp
  next
    case False
    with Suc.prems show ?thesis
      by (subst nextSelectable_loop.simps) (auto split: if_splits)
  qed
qed


text \<open>The loop stops at the first step whose column is wide or has no call node.\<close>

lemma steps_stop:
  assumes "box_wide row (c + int (Suc k) * d) \<or> js_index (row_callNode row) (c + int (Suc k) * d) = Undefined"
    and "\<forall>i<k. \<not> box_wide row (c + int (Suc i) * d) \<and> js_index (row_callNode row) (c + int (Suc i) * d) \<noteq> Undefined"
  shows "nextSelectable_steps (Suc k) row d c = Some (js_index (row_callNode row) (c + int (Suc k) * d))
       \<and> nextSelectable_steps k row d c = None"
  using assms
proof (induction k arbitrary: c)
  case 0
  then show ?case by auto
next
  case (Suc k)
  from Suc.prems(2) have first: "\<not> box_wide row (c + d)" "js_index (row_callNode row) (c + d) \<noteq> Undefined"
    by (auto dest: spec [of _ 0])
  have eq: "\<And>i. c + d + int (Suc i) * d = c + int (Suc (Suc i)) * d"
    by (simp add: algebra_simps)
  have "box_wide row (c + d + int (Suc k) * d) \<or> js_index (row_callNode row) (c + d + int (Suc k) * d) = Undefined"
    using Suc.prems(1) by (simp only: eq)
  moreover have "\<forall>i<k. \<not> box_wide row (c + d + int (Suc i) * d) \<and> js_index (row_callNode row) (c + d + int (Suc i) * d) \<noteq> Undefined"
  proof (intro allI impI)
    fix i assume "i < k"
    then have "Suc i < Suc k" by simp
    with Suc.prems(2) show "\<not> box_wide row (c + d + int (Suc i) * d) \<and> js_index (row_callNode row) (c + d + int (Suc i) * d) \<noteq> Undefined"
      by (simp only: eq) blast
  qed
  ultimately have "nextSelectable_steps (Suc k) row d (c + d) = Some (js_index (row_callNode row) (c + d + int (Suc k) * d))
       \<and> nextSelectable_steps k row d (c + d) = None"
    by (rule Suc.IH)
  then show ?case using first by (simp add: eq del: of_nat_Suc)
qed

lemma js_index_in: "0 \<le> i \<Longrightarrow> i < int (length xs) \<Longrightarrow> js_index xs i = Val (xs ! nat i)"
  by (simp add: js_index_def)

lemma js_index_out: "i < 0 \<or> int (length xs) \<le> i \<Longrightarrow> js_index xs i = Undefined"
  by (auto simp add: js_index_def)

lemma box_wide_int:
  "parallel_arrays row \<Longrightarrow> 0 \<le> i \<Longrightarrow> i < int (length (row_callNode row)) \<Longrightarrow>
     box_wide row i = double_gt (box_width row (nat i)) SELECTABLE_THRESHOLD"
  using box_wide_column [of row "nat i"] by simp

lemma steps_found:
  assumes par: "parallel_arrays row"
    and d: "d = 1 \<or> d = - 1"
    and c: "- 1 \<le> c" "c < int (length (row_callNode row))"
    and lo: "0 \<le> c + int (Suc k) * d"
    and hi: "c + int (Suc k) * d < int (length (row_callNode row))"
    and wide: "double_gt (box_width row (nat (c + int (Suc k) * d))) SELECTABLE_THRESHOLD"
    and narrow: "\<forall>i<k. \<not> double_gt (box_width row (nat (c + int (Suc i) * d))) SELECTABLE_THRESHOLD"
  shows "nextSelectable_steps (Suc k) row d c =
           Some (Val (row_callNode row ! nat (c + int (Suc k) * d)))"
proof -
  have range: "0 \<le> c + int (Suc i) * d \<and> c + int (Suc i) * d < int (length (row_callNode row))"
    if "i < k" for i
  proof -
    from that have "int (Suc i) < int (Suc k)" by simp
    with d c lo hi show ?thesis by auto
  qed
  have "box_wide row (c + int (Suc k) * d)"
    using par lo hi wide by (simp only: box_wide_int)
  then have stop: "box_wide row (c + int (Suc k) * d)
      \<or> js_index (row_callNode row) (c + int (Suc k) * d) = Undefined" ..
  have go: "\<forall>i<k. \<not> box_wide row (c + int (Suc i) * d)
      \<and> js_index (row_callNode row) (c + int (Suc i) * d) \<noteq> Undefined"
  proof (intro allI impI)
    fix i assume i: "i < k"
    from range [OF i] have r: "0 \<le> c + int (Suc i) * d" "c + int (Suc i) * d < int (length (row_callNode row))"
      by simp_all
    from narrow i have "\<not> double_gt (box_width row (nat (c + int (Suc i) * d))) SELECTABLE_THRESHOLD"
      by blast
    with par r have "\<not> box_wide row (c + int (Suc i) * d)" by (simp add: box_wide_int del: of_nat_Suc)
    moreover from r have "js_index (row_callNode row) (c + int (Suc i) * d) \<noteq> Undefined"
      by (simp only: js_index_in) simp
    ultimately show "\<not> box_wide row (c + int (Suc i) * d)
      \<and> js_index (row_callNode row) (c + int (Suc i) * d) \<noteq> Undefined" ..
  qed
  from steps_stop [OF stop go] lo hi show ?thesis by (simp only: js_index_in)
qed

lemma steps_not_found:
  assumes par: "parallel_arrays row"
    and d: "d = 1 \<or> d = - 1"
    and c: "- 1 \<le> c" "c < int (length (row_callNode row))"
    and narrow: "\<forall>j<length (row_callNode row). 0 < (int j - c) * d \<longrightarrow>
                   \<not> double_gt (box_width row j) SELECTABLE_THRESHOLD"
  shows "nextSelectable_steps
           (Suc (if d = 1 then nat (int (length (row_callNode row)) - 1 - c) else nat c)) row d c
           = Some Undefined"
proof -
  define k where "k = (if d = 1 then nat (int (length (row_callNode row)) - 1 - c) else nat c)"
  have out: "c + int (Suc k) * d < 0 \<or> int (length (row_callNode row)) \<le> c + int (Suc k) * d"
    using d c by (auto simp add: k_def)
  then have undef: "js_index (row_callNode row) (c + int (Suc k) * d) = Undefined"
    by (rule js_index_out)
  then have stop: "box_wide row (c + int (Suc k) * d)
      \<or> js_index (row_callNode row) (c + int (Suc k) * d) = Undefined" ..
  have go: "\<forall>i<k. \<not> box_wide row (c + int (Suc i) * d)
      \<and> js_index (row_callNode row) (c + int (Suc i) * d) \<noteq> Undefined"
  proof (intro allI impI)
    fix i assume i: "i < k"
    have r: "0 \<le> c + int (Suc i) * d" "c + int (Suc i) * d < int (length (row_callNode row))"
      using d c i by (auto simp add: k_def split: if_splits)
    have side: "0 < (int (nat (c + int (Suc i) * d)) - c) * d"
      using d r by auto
    from r have "nat (c + int (Suc i) * d) < length (row_callNode row)" by simp
    with narrow side have "\<not> double_gt (box_width row (nat (c + int (Suc i) * d))) SELECTABLE_THRESHOLD"
      by blast
    with par r have "\<not> box_wide row (c + int (Suc i) * d)" by (simp add: box_wide_int del: of_nat_Suc)
    moreover from r have "js_index (row_callNode row) (c + int (Suc i) * d) \<noteq> Undefined"
      by (simp only: js_index_in) simp
    ultimately show "\<not> box_wide row (c + int (Suc i) * d)
      \<and> js_index (row_callNode row) (c + int (Suc i) * d) \<noteq> Undefined" ..
  qed
  from steps_stop [OF stop go] undef show ?thesis by (simp only: k_def)
qed

lemma handleKeyDown_left_right:
  assumes "selectedCallNodeIndex props = Some s"
    and "key event = ''ArrowLeft'' \<or> key event = ''ArrowRight''"
    and "row_of props s = Inr row"
    and "nextSelectable_loop row (if key event = ''ArrowLeft'' then - 1 else 1)
           (indexOf (row_callNode row) s) = Some v"
  shows "handleKeyDown gp props event =
     Some (Inr (if v \<noteq> Undefined
        then [ChangeSelectedCallNode (threadsKey props) (gp v (callNodeTable (callNodeInfo props)))]
        else []))"
  using assms by (auto simp add: handleKeyDown_def nextSelectableInRow_def)


lemma handleKeyDown_left_right_throws:
  assumes "selectedCallNodeIndex props = Some s"
    and "key event = ''ArrowLeft'' \<or> key event = ''ArrowRight''"
    and "no_timing_row props s"
  shows "handleKeyDown gp props event = Some (Inl TypeError)"
  using assms(1,2) row_of_no_timing_row [OF assms(3)]
  by (auto simp add: handleKeyDown_def nextSelectableInRow_def)





lemma js_index_not_Null: "js_index xs i \<noteq> Null"
  by (simp add: js_index_def)

lemma maxDepth_loop_fold: "maxDepth_loop depths i m = fold max (drop i depths) m"
proof (induction depths i m rule: maxDepth_loop.induct)
  case (1 depths i maxDepth)
  show ?case
  proof (cases "i < length depths")
    case True
    then have d: "drop i depths = depths ! i # drop (i + 1) depths"
      by (simp add: Cons_nth_drop_Suc)
    have m: "(if depths ! i > maxDepth then depths ! i else maxDepth) = max (depths ! i) maxDepth"
      by (simp add: max_def)
    from True have "maxDepth_loop depths i maxDepth =
        maxDepth_loop depths (i + 1) (if depths ! i > maxDepth then depths ! i else maxDepth)"
      by (subst maxDepth_loop.simps) simp
    also have "\<dots> = fold max (drop (i + 1) depths)
        (if depths ! i > maxDepth then depths ! i else maxDepth)"
      using True by (rule "1.IH")
    also have "\<dots> = fold max (drop i depths) maxDepth"
      by (simp only: d m fold_Cons comp_apply)
    finally show ?thesis .
  next
    case False
    then show ?thesis by (subst maxDepth_loop.simps) simp
  qed
qed

section \<open>Keyboard navigation of the flame graph\<close>

text \<open>
  C1: an ArrowLeft or ArrowRight key event with a call node selected. The handler takes
  the row of the flame-graph timing at the depth of the selected node \<open>s\<close> and the column
  \<open>c\<close> that a linear scan of the row's \<open>callNode\<close> array gives for \<open>s\<close>. From \<open>c\<close> it
  steps in the direction \<open>d\<close> (\<open>-1\<close> for ArrowLeft, \<open>1\<close> for ArrowRight) one column at a
  time and dispatches a selection change to the call node of the first box whose width
  (end minus start) exceeds \<open>SELECTABLE_THRESHOLD\<close>: for every number \<open>k\<close> of steps that
  ends inside the row on such a box after narrower ones only, that call node is selected.
  When no box on that side of \<open>c\<close> is wide enough, nothing is dispatched, so the selection
  stays as it is. A selected node that the row does not hold is scanned for all the same:
  the scan gives \<open>-1\<close> and the steps start from there. When the timing has no row for the
  selected node, the handler throws before it dispatches anything.
\<close>

theorem arrow_left_right_selects_next_wide_box:
  assumes sel: "selectedCallNodeIndex props = Some s"
    and key: "key event = ''ArrowLeft'' \<or> key event = ''ArrowRight''"
    and d: "d = (if key event = ''ArrowLeft'' then - 1 else 1)"
  shows "(\<forall>row c. timing_row props s row \<and> parallel_arrays row \<and> scan_start row s c \<longrightarrow>
            (\<forall>k. 0 < k \<and> 0 \<le> c + int k * d \<and> c + int k * d < int (length (row_callNode row))
                \<and> double_gt (box_width row (nat (c + int k * d))) SELECTABLE_THRESHOLD
                \<and> (\<forall>i. 0 < i \<and> i < k \<longrightarrow>
                      \<not> double_gt (box_width row (nat (c + int i * d))) SELECTABLE_THRESHOLD)
              \<longrightarrow> handleKeyDown gp props event =
                    Some (Inr [ChangeSelectedCallNode (threadsKey props)
                      (gp (Val (row_callNode row ! nat (c + int k * d)))
                          (callNodeTable (callNodeInfo props)))]))
          \<and> ((\<forall>j<length (row_callNode row). 0 < (int j - c) * d \<longrightarrow>
                   \<not> double_gt (box_width row j) SELECTABLE_THRESHOLD)
              \<longrightarrow> handleKeyDown gp props event = Some (Inr [])))
       \<and> (no_timing_row props s \<longrightarrow> handleKeyDown gp props event = Some (Inl TypeError))"
proof (intro conjI allI impI)
  fix row c k
  assume w: "timing_row props s row \<and> parallel_arrays row \<and> scan_start row s c"
    and f: "0 < k \<and> 0 \<le> c + int k * d \<and> c + int k * d < int (length (row_callNode row))
                \<and> double_gt (box_width row (nat (c + int k * d))) SELECTABLE_THRESHOLD
                \<and> (\<forall>i. 0 < i \<and> i < k \<longrightarrow>
                      \<not> double_gt (box_width row (nat (c + int i * d))) SELECTABLE_THRESHOLD)"
  from d have d1: "d = 1 \<or> d = - 1" by simp
  from w have r: "row_of props s = Inr row" and par: "parallel_arrays row"
    by (simp_all add: row_of_timing_row)
  from w have st: "scan_start row s c" by simp
  note ix = indexOf_scan_start [OF st]
  from f obtain k' where k': "k = Suc k'" by (cases k) auto
  from f have lo: "0 \<le> c + int (Suc k') * d"
    and hi: "c + int (Suc k') * d < int (length (row_callNode row))"
    and wide: "double_gt (box_width row (nat (c + int (Suc k') * d))) SELECTABLE_THRESHOLD"
    by (simp_all only: k')
  from f have n': "\<forall>i<k'. \<not> double_gt (box_width row (nat (c + int (Suc i) * d))) SELECTABLE_THRESHOLD"
    by (auto simp add: k')
  from steps_found [OF par d1 ix(2) ix(3) lo hi wide n']
  have "nextSelectable_steps k row d c = Some (Val (row_callNode row ! nat (c + int k * d)))"
    by (simp only: k')
  then have "nextSelectable_loop row d (indexOf (row_callNode row) s)
      = Some (Val (row_callNode row ! nat (c + int k * d)))"
    unfolding ix(1) by (rule steps_imp_loop)
  then have "nextSelectable_loop row (if key event = ''ArrowLeft'' then - 1 else 1)
      (indexOf (row_callNode row) s) = Some (Val (row_callNode row ! nat (c + int k * d)))"
    by (simp only: d)
  from handleKeyDown_left_right [OF sel key r this]
  show "handleKeyDown gp props event =
                    Some (Inr [ChangeSelectedCallNode (threadsKey props)
                      (gp (Val (row_callNode row ! nat (c + int k * d)))
                          (callNodeTable (callNodeInfo props)))])"
    by simp
next
  fix row c
  assume w: "timing_row props s row \<and> parallel_arrays row \<and> scan_start row s c"
    and narrow: "\<forall>j<length (row_callNode row). 0 < (int j - c) * d \<longrightarrow>
                   \<not> double_gt (box_width row j) SELECTABLE_THRESHOLD"
  from d have d1: "d = 1 \<or> d = - 1" by simp
  from w have r: "row_of props s = Inr row" and par: "parallel_arrays row"
    by (simp_all add: row_of_timing_row)
  from w have st: "scan_start row s c" by simp
  note ix = indexOf_scan_start [OF st]
  from steps_not_found [OF par d1 ix(2) ix(3) narrow]
  have "nextSelectable_loop row d (indexOf (row_callNode row) s) = Some Undefined"
    unfolding ix(1) by (rule steps_imp_loop)
  then have "nextSelectable_loop row (if key event = ''ArrowLeft'' then - 1 else 1)
      (indexOf (row_callNode row) s) = Some Undefined"
    by (simp only: d)
  from handleKeyDown_left_right [OF sel key r this]
  show "handleKeyDown gp props event = Some (Inr [])" by simp
next
  assume "no_timing_row props s"
  with sel key show "handleKeyDown gp props event = Some (Inl TypeError)"
    by (rule handleKeyDown_left_right_throws)
qed

text \<open>
  In the example, ArrowRight from call node 1 (column 0) passes the narrow box of call
  node 2 and selects call node 3, whose box \<open>[0.1, 0.101]\<close> is wide enough as the doubles
  are; ArrowRight from call node 3 (column 2) finds only the narrow box of call node 4
  and dispatches nothing. With call node 1 selected and absent from its row, ArrowRight
  scans the whole row, finds one narrow box and dispatches nothing; with call node 2
  selected, whose depth has no row, the handler throws.
\<close>

theorem arrow_left_right_selects_next_wide_box_witness:
  "timing_row (example_props (Some 1) None) 1 example_row1
   \<and> parallel_arrays example_row1 \<and> scan_start example_row1 1 0 \<and> scan_start example_row1 3 2
   \<and> handleKeyDown index_as_path (example_props (Some 1) None) \<lparr>key = ''ArrowRight''\<rparr>
       = Some (Inr [ChangeSelectedCallNode ''thread-0'' (Val 3)])
   \<and> handleKeyDown index_as_path (example_props (Some 3) None) \<lparr>key = ''ArrowRight''\<rparr>
       = Some (Inr [])
   \<and> scan_start narrow_row 1 (- 1)
   \<and> handleKeyDown index_as_path absent_props \<lparr>key = ''ArrowRight''\<rparr> = Some (Inr [])
   \<and> no_timing_row (absent_props\<lparr>selectedCallNodeIndex := Some 2\<rparr>) 2
   \<and> handleKeyDown index_as_path (absent_props\<lparr>selectedCallNodeIndex := Some 2\<rparr>)
        \<lparr>key = ''ArrowLeft''\<rparr> = Some (Inl TypeError)"
proof -
  let ?P = "example_props (Some 1) None" and ?Q = "example_props (Some 3) None"
  let ?A = "absent_props\<lparr>selectedCallNodeIndex := Some 2\<rparr>"
  let ?E = "\<lparr>key = ''ArrowRight''\<rparr>" and ?L = "\<lparr>key = ''ArrowLeft''\<rparr>"
  have h1: "selectedCallNodeIndex ?P = Some 1" by (simp add: example_defs)
  have h2: "key ?E = ''ArrowLeft'' \<or> key ?E = ''ArrowRight''" by simp
  have h3: "(1::int) = (if key ?E = ''ArrowLeft'' then - 1 else 1)" by simp
  have h4: "timing_row ?P 1 example_row1" by (simp add: timing_row_def example_defs)
  have h5: "parallel_arrays example_row1" by (simp add: parallel_arrays_def example_row1_def)
  have h6: "scan_start example_row1 1 0" by (simp add: scan_start_def column_of_def example_row1_def)
  have narrow: "\<forall>i. 0 < i \<and> i < (2::nat) \<longrightarrow>
      \<not> double_gt (box_width example_row1 (nat (0 + int i * 1))) SELECTABLE_THRESHOLD"
  proof (intro allI impI)
    fix i :: nat assume "0 < i \<and> i < 2"
    then have "i = 1" by arith
    then show "\<not> double_gt (box_width example_row1 (nat (0 + int i * 1))) SELECTABLE_THRESHOLD"
      by (simp add: example_row1_boxes)
  qed
  have wide: "double_gt (box_width example_row1 (nat (0 + int 2 * 1))) SELECTABLE_THRESHOLD"
    by (simp add: example_row1_boxes)
  have len: "length (row_callNode example_row1) = 4" by (simp add: example_row1_def)
  from arrow_left_right_selects_next_wide_box [OF h1 h2 h3, of index_as_path] h4 h5 h6
  have "0 < (2::nat) \<and> 0 \<le> 0 + int 2 * 1 \<and> 0 + int 2 * 1 < int (length (row_callNode example_row1))
            \<and> double_gt (box_width example_row1 (nat (0 + int 2 * 1))) SELECTABLE_THRESHOLD
            \<and> (\<forall>i. 0 < i \<and> i < 2 \<longrightarrow>
                  \<not> double_gt (box_width example_row1 (nat (0 + int i * 1))) SELECTABLE_THRESHOLD)
          \<longrightarrow> handleKeyDown index_as_path ?P ?E =
                Some (Inr [ChangeSelectedCallNode (threadsKey ?P)
                  (index_as_path (Val (row_callNode example_row1 ! nat (0 + int 2 * 1)))
                      (callNodeTable (callNodeInfo ?P)))])"
    by blast
  with narrow wide len have "handleKeyDown index_as_path ?P ?E =
                Some (Inr [ChangeSelectedCallNode (threadsKey ?P)
                  (index_as_path (Val (row_callNode example_row1 ! nat (0 + int 2 * 1)))
                      (callNodeTable (callNodeInfo ?P)))])"
    by simp
  then have a: "handleKeyDown index_as_path ?P ?E = Some (Inr [ChangeSelectedCallNode ''thread-0'' (Val 3)])"
    by (simp add: example_props_def example_row1_def index_as_path_def)
  have g1: "selectedCallNodeIndex ?Q = Some 3" by (simp add: example_defs)
  have g4: "timing_row ?Q 3 example_row1" by (simp add: timing_row_def example_defs)
  have g6: "scan_start example_row1 3 2" by (simp add: scan_start_def column_of_def example_row1_def)
  have rest: "\<forall>j<length (row_callNode example_row1). 0 < (int j - 2) * 1 \<longrightarrow>
               \<not> double_gt (box_width example_row1 j) SELECTABLE_THRESHOLD"
  proof (intro allI impI)
    fix j :: nat assume "j < length (row_callNode example_row1)" and "0 < (int j - 2) * 1"
    then have "j = 3" by (simp add: len)
    then show "\<not> double_gt (box_width example_row1 j) SELECTABLE_THRESHOLD"
      by (simp add: example_row1_boxes)
  qed
  from arrow_left_right_selects_next_wide_box [OF g1 h2 h3, of index_as_path] g4 h5 g6 rest
  have b: "handleKeyDown index_as_path ?Q ?E = Some (Inr [])" by blast
  have m1: "selectedCallNodeIndex absent_props = Some 1" by (simp add: absent_props_def)
  have m4: "timing_row absent_props 1 narrow_row" by (simp add: timing_row_def absent_props_def)
  have m5: "parallel_arrays narrow_row" by (simp add: parallel_arrays_def narrow_row_def)
  have m6: "scan_start narrow_row 1 (- 1)" by (simp add: scan_start_def narrow_row_def)
  have all: "\<forall>j<length (row_callNode narrow_row). 0 < (int j - (- 1)) * 1 \<longrightarrow>
               \<not> double_gt (box_width narrow_row j) SELECTABLE_THRESHOLD"
  proof (intro allI impI)
    fix j :: nat assume "j < length (row_callNode narrow_row)"
    then have "j = 0" by (simp add: narrow_row_def)
    then show "\<not> double_gt (box_width narrow_row j) SELECTABLE_THRESHOLD"
      by (simp add: narrow_row_box)
  qed
  from arrow_left_right_selects_next_wide_box [OF m1 h2 h3, of index_as_path] m4 m5 m6 all
  have c: "handleKeyDown index_as_path absent_props ?E = Some (Inr [])" by blast
  have t1: "selectedCallNodeIndex ?A = Some 2" by simp
  have t2: "key ?L = ''ArrowLeft'' \<or> key ?L = ''ArrowRight''" by simp
  have t3: "(- 1::int) = (if key ?L = ''ArrowLeft'' then - 1 else 1)" by simp
  have t4: "no_timing_row ?A 2" by (simp add: no_timing_row_def absent_props_def)
  from arrow_left_right_selects_next_wide_box [OF t1 t2 t3, of index_as_path] t4
  have e: "handleKeyDown index_as_path ?A ?L = Some (Inl TypeError)" by blast
  from h4 h5 h6 g6 a b m6 c t4 e show ?thesis by blast
qed

text \<open>
  C2: an ArrowUp key event with a call node selected. The handler takes the first of the
  children the call tree gives for the selected node and dispatches a selection change to
  it if and only if that child exists and its box in the flame graph is wider than
  \<open>SELECTABLE_THRESHOLD\<close>; with no child, with a narrow box, or with no box in the row, it
  dispatches nothing and the selection stays as it is. When the timing has no row for the
  child, the handler throws before it dispatches anything. (That the children come sorted
  by descending total time, so that the first is the widest, is a property of the call
  tree, which is computed elsewhere; the statement holds for every \<open>getChildren\<close>.)
\<close>

theorem arrow_up_selects_first_child_if_wide:
  assumes sel: "selectedCallNodeIndex props = Some s"
    and key: "key event = ''ArrowUp''"
  shows "(getChildren (callTree props) s = [] \<longrightarrow> handleKeyDown gp props event = Some (Inr []))
     \<and> (\<forall>child rest row c.
          getChildren (callTree props) s = child # rest \<and> timing_row props child row
          \<and> parallel_arrays row \<and> column_of row child c \<longrightarrow>
          handleKeyDown gp props event =
            Some (Inr (if double_gt (box_width row c) SELECTABLE_THRESHOLD
               then [ChangeSelectedCallNode (threadsKey props)
                       (gp (Val child) (callNodeTable (callNodeInfo props)))]
               else [])))
     \<and> (\<forall>child rest row.
          getChildren (callTree props) s = child # rest \<and> timing_row props child row
          \<and> child \<notin> set (row_callNode row) \<longrightarrow>
          handleKeyDown gp props event = Some (Inr []))
     \<and> (\<forall>child rest.
          getChildren (callTree props) s = child # rest \<and> no_timing_row props child \<longrightarrow>
          handleKeyDown gp props event = Some (Inl TypeError))"
proof (intro conjI allI impI)
  assume "getChildren (callTree props) s = []"
  with sel key show "handleKeyDown gp props event = Some (Inr [])"
    by (simp add: handleKeyDown_def js_index_def)
next
  fix child rest row c
  assume a: "getChildren (callTree props) s = child # rest \<and> timing_row props child row
          \<and> parallel_arrays row \<and> column_of row child c"
  then have c: "c < length (row_callNode row)" by (simp add: column_of_def)
  from a have r: "row_of props child = Inr row" by (simp add: row_of_timing_row)
  from a have ix: "indexOf (row_callNode row) child = int c" by (simp add: indexOf_column)
  from a have "box_wide row (int c) = double_gt (box_width row c) SELECTABLE_THRESHOLD"
    using c by (simp add: box_wide_column)
  with r ix have "wideEnough props child = Inr (double_gt (box_width row c) SELECTABLE_THRESHOLD)"
    by (simp add: wideEnough_def)
  with sel key a show "handleKeyDown gp props event =
            Some (Inr (if double_gt (box_width row c) SELECTABLE_THRESHOLD
               then [ChangeSelectedCallNode (threadsKey props)
                       (gp (Val child) (callNodeTable (callNodeInfo props)))]
               else []))"
    by (simp add: handleKeyDown_def js_index_def)
next
  fix child rest row
  assume a: "getChildren (callTree props) s = child # rest \<and> timing_row props child row
          \<and> child \<notin> set (row_callNode row)"
  then have "row_of props child = Inr row" and "indexOf (row_callNode row) child = - 1"
    by (simp_all add: row_of_timing_row indexOf_absent)
  then have "wideEnough props child = Inr False"
    by (simp add: wideEnough_def box_wide_def js_index_def to_number_def double_sub_def
        double_gt_def)
  with sel key a show "handleKeyDown gp props event = Some (Inr [])"
    by (simp add: handleKeyDown_def js_index_def)
next
  fix child rest
  assume a: "getChildren (callTree props) s = child # rest \<and> no_timing_row props child"
  then have "row_of props child = Inl TypeError" by (simp add: row_of_no_timing_row)
  then have "wideEnough props child = Inl TypeError" by (simp add: wideEnough_def)
  with sel key a show "handleKeyDown gp props event = Some (Inl TypeError)"
    by (simp add: handleKeyDown_def js_index_def)
qed

text \<open>
  In the example, ArrowUp from the root selects its first child, call node 1, whose box is
  0.0995 wide; ArrowUp from call node 1, which has no children, dispatches nothing.
\<close>

theorem arrow_up_selects_first_child_if_wide_witness:
  "timing_row (example_props (Some 0) None) 1 example_row1
   \<and> parallel_arrays example_row1 \<and> column_of example_row1 1 0
   \<and> handleKeyDown index_as_path (example_props (Some 0) None) \<lparr>key = ''ArrowUp''\<rparr>
       = Some (Inr [ChangeSelectedCallNode ''thread-0'' (Val 1)])
   \<and> handleKeyDown index_as_path (example_props (Some 1) None) \<lparr>key = ''ArrowUp''\<rparr>
       = Some (Inr [])"
proof -
  let ?P = "example_props (Some 0) None" and ?Q = "example_props (Some 1) None"
  let ?E = "\<lparr>key = ''ArrowUp''\<rparr>"
  have h1: "selectedCallNodeIndex ?P = Some 0" by (simp add: example_defs)
  have h2: "key ?E = ''ArrowUp''" by simp
  have ch: "getChildren (callTree ?P) 0 = 1 # [3, 2, 4]" by (simp add: example_defs)
  have h4: "timing_row ?P 1 example_row1" by (simp add: timing_row_def example_defs)
  have h5: "parallel_arrays example_row1" by (simp add: parallel_arrays_def example_row1_def)
  have h6: "column_of example_row1 1 0" by (simp add: column_of_def example_row1_def)
  note w = example_row1_boxes(1)
  from arrow_up_selects_first_child_if_wide [OF h1 h2, of index_as_path] ch h4 h5 h6
  have "handleKeyDown index_as_path ?P ?E =
            Some (Inr (if double_gt (box_width example_row1 0) SELECTABLE_THRESHOLD
               then [ChangeSelectedCallNode (threadsKey ?P)
                       (index_as_path (Val 1) (callNodeTable (callNodeInfo ?P)))]
               else []))"
    by blast
  with w have a: "handleKeyDown index_as_path ?P ?E = Some (Inr [ChangeSelectedCallNode ''thread-0'' (Val 1)])"
    by (simp add: example_props_def index_as_path_def)
  have g1: "selectedCallNodeIndex ?Q = Some 1" by (simp add: example_defs)
  have "getChildren (callTree ?Q) 1 = []" by (simp add: example_defs)
  with arrow_up_selects_first_child_if_wide [OF g1 h2, of index_as_path]
  have b: "handleKeyDown index_as_path ?Q ?E = Some (Inr [])" by blast
  from h4 h5 h6 a b show ?thesis by blast
qed

text \<open>
  C3: an ArrowDown key event with a call node selected. The handler reads the parent of
  the selected node from the \<open>prefix\<close> column of the call-node table and dispatches a
  selection change to that parent if and only if the entry is not \<open>-1\<close>; for a root
  (prefix \<open>-1\<close>) it dispatches nothing and the selection stays as it is.
\<close>

theorem arrow_down_selects_parent:
  assumes "selectedCallNodeIndex props = Some s"
    and "key event = ''ArrowDown''"
    and "0 \<le> s" and "s < int (length (prefix (callNodeTable (callNodeInfo props))))"
  shows "handleKeyDown gp props event =
     Some (Inr (if prefix (callNodeTable (callNodeInfo props)) ! nat s \<noteq> - 1
                then [ChangeSelectedCallNode (threadsKey props)
                        (gp (Val (prefix (callNodeTable (callNodeInfo props)) ! nat s))
                            (callNodeTable (callNodeInfo props)))]
                else []))"
  using assms by (simp add: handleKeyDown_def js_index_def)

theorem arrow_down_selects_parent_witness:
  "handleKeyDown index_as_path (example_props (Some 2) None) \<lparr>key = ''ArrowDown''\<rparr>
       = Some (Inr [ChangeSelectedCallNode ''thread-0'' (Val 0)])
   \<and> handleKeyDown index_as_path (example_props (Some 0) None) \<lparr>key = ''ArrowDown''\<rparr>
       = Some (Inr [])"
proof -
  let ?E = "\<lparr>key = ''ArrowDown''\<rparr>"
  have k: "key ?E = ''ArrowDown''" by simp
  have a: "selectedCallNodeIndex (example_props (Some 2) None) = Some 2"
    and a': "(2::int) < int (length (prefix (callNodeTable (callNodeInfo (example_props (Some 2) None)))))"
    by (simp_all add: example_defs)
  have b: "selectedCallNodeIndex (example_props (Some 0) None) = Some 0"
    and b': "(0::int) < int (length (prefix (callNodeTable (callNodeInfo (example_props (Some 0) None)))))"
    by (simp_all add: example_defs)
  have z: "(0::int) \<le> 2" "(0::int) \<le> 0" by simp_all
  from arrow_down_selects_parent [OF a k z(1) a', of index_as_path]
    arrow_down_selects_parent [OF b k z(2) b', of index_as_path]
  show ?thesis by (simp add: example_defs)
qed

text \<open>
  C8: an arrow key event (ArrowUp, ArrowDown, ArrowLeft or ArrowRight) with no call node
  selected. Whichever of the four keys it is, the handler dispatches one selection change,
  to the path of the call node 0, the root, and moves in no direction.
\<close>

theorem arrow_without_selection_selects_root:
  assumes "selectedCallNodeIndex props = None"
    and "key event \<in> {''ArrowUp'', ''ArrowDown'', ''ArrowLeft'', ''ArrowRight''}"
  shows "handleKeyDown gp props event =
     Some (Inr [ChangeSelectedCallNode (threadsKey props)
                  (gp (Val 0) (callNodeTable (callNodeInfo props)))])"
  using assms by (auto simp add: handleKeyDown_def)

theorem arrow_without_selection_selects_root_witness:
  "handleKeyDown index_as_path (example_props None None) \<lparr>key = ''ArrowLeft''\<rparr>
     = Some (Inr [ChangeSelectedCallNode ''thread-0'' (Val 0)])
   \<and> handleKeyDown index_as_path (example_props None (Some 2)) \<lparr>key = ''ArrowUp''\<rparr>
     = Some (Inr [ChangeSelectedCallNode ''thread-0'' (Val 0)])"
proof -
  have s: "selectedCallNodeIndex (example_props None None) = None"
    and s': "selectedCallNodeIndex (example_props None (Some 2)) = None"
    by (simp_all add: example_defs)
  have k: "key \<lparr>key = ''ArrowLeft''\<rparr> \<in> {''ArrowUp'', ''ArrowDown'', ''ArrowLeft'', ''ArrowRight''}"
    and k': "key \<lparr>key = ''ArrowUp''\<rparr> \<in> {''ArrowUp'', ''ArrowDown'', ''ArrowLeft'', ''ArrowRight''}"
    by simp_all
  from arrow_without_selection_selects_root [OF s k, of index_as_path]
    arrow_without_selection_selects_root [OF s' k', of index_as_path]
  show ?thesis by (simp add: example_defs)
qed

section \<open>Keys other than the arrows\<close>

text \<open>
  C4, as the code has it: the \<open>console.error\<close> for an unknown key is the \<open>default\<close>
  branch of a \<open>switch\<close> that is entered only for the four arrow keys, each of which has
  its own \<open>case\<close>. So the branch is never reached: whatever the props and the key, a
  key event that the handler returns from has logged no unknown-key error.
\<close>

theorem console_error_is_unreachable:
  assumes "handleKeyDown gp props event = Some (Inr effs)"
  shows "ConsoleError m \<notin> set effs"
  using assms
  by (auto simp add: handleKeyDown_def onCallNodeEnterOrDoubleClick_def Let_def
      split: if_splits option.splits js.splits sum.splits)

theorem console_error_is_unreachable_witness:
  "handleKeyDown index_as_path (example_props (Some 1) None) \<lparr>key = ''F1''\<rparr>
     = Some (Inr [HandleCallNodeTransformShortcut \<lparr>key = ''F1''\<rparr> ''thread-0'' 1])
   \<and> ConsoleError (unknown_key_message ''F1'')
        \<notin> set [HandleCallNodeTransformShortcut \<lparr>key = ''F1''\<rparr> ''thread-0'' (1::int)
                 :: (string, int js, int) effect]"
proof -
  have h: "handleKeyDown index_as_path (example_props (Some 1) None) \<lparr>key = ''F1''\<rparr>
     = Some (Inr [HandleCallNodeTransformShortcut \<lparr>key = ''F1''\<rparr> ''thread-0'' 1])"
    by (simp add: handleKeyDown_def example_defs)
  from console_error_is_unreachable [OF h] h show ?thesis by blast
qed

text \<open>
  C4, as first stated (every key that is not a recognized one is logged as unknown), fails
  at the key \<open>x\<close>: with call node 1 selected the event goes to the transform shortcuts,
  with nothing selected the handler returns at once, and neither logs anything.
\<close>

theorem unknown_key_is_not_logged:
  "handleKeyDown index_as_path (example_props (Some 1) None) \<lparr>key = ''x''\<rparr>
     = Some (Inr [HandleCallNodeTransformShortcut \<lparr>key = ''x''\<rparr> ''thread-0'' 1])
   \<and> handleKeyDown index_as_path (example_props None None) \<lparr>key = ''x''\<rparr> = Some (Inr [])"
  by (simp add: handleKeyDown_def example_defs)

text \<open>
  C5: a key event whose key is not an arrow key. With both the selected and the
  right-clicked call node \<open>null\<close>, the handler dispatches nothing at all. A right-clicked
  call node is the target whatever the selection is; the selected call node is the target
  only when no call node is right-clicked. Enter on the target opens the bottom box, any
  other key goes to the transform shortcuts with the target.
\<close>

theorem non_arrow_key_null_guard:
  assumes "key event \<notin> {''ArrowDown'', ''ArrowUp'', ''ArrowLeft'', ''ArrowRight''}"
  shows "(selectedCallNodeIndex props = None \<and> rightClickedCallNodeIndex props = None
            \<longrightarrow> handleKeyDown gp props event = Some (Inr []))
       \<and> (\<forall>r. rightClickedCallNodeIndex props = Some r \<longrightarrow>
            handleKeyDown gp props event =
              Some (Inr (if key event = ''Enter''
                 then [UpdateBottomBoxContentsAndMaybeOpen ''flame-graph''
                         (getBottomBoxInfoForCallNode (callTree props) r)]
                 else [HandleCallNodeTransformShortcut event (threadsKey props) r])))
       \<and> (\<forall>s. rightClickedCallNodeIndex props = None \<and> selectedCallNodeIndex props = Some s \<longrightarrow>
            handleKeyDown gp props event =
              Some (Inr (if key event = ''Enter''
                 then [UpdateBottomBoxContentsAndMaybeOpen ''flame-graph''
                         (getBottomBoxInfoForCallNode (callTree props) s)]
                 else [HandleCallNodeTransformShortcut event (threadsKey props) s])))"
  using assms by (auto simp add: handleKeyDown_def onCallNodeEnterOrDoubleClick_def)

theorem non_arrow_key_null_guard_witness:
  "''x'' \<notin> {''ArrowDown'', ''ArrowUp'', ''ArrowLeft'', ''ArrowRight''}
   \<and> handleKeyDown index_as_path (example_props None None) \<lparr>key = ''x''\<rparr> = Some (Inr [])
   \<and> handleKeyDown index_as_path (example_props (Some 1) (Some 3)) \<lparr>key = ''x''\<rparr>
       = Some (Inr [HandleCallNodeTransformShortcut \<lparr>key = ''x''\<rparr> ''thread-0'' 3])"
proof -
  let ?E = "\<lparr>key = ''x''\<rparr>"
  have k: "key ?E \<notin> {''ArrowDown'', ''ArrowUp'', ''ArrowLeft'', ''ArrowRight''}" by simp
  have n: "selectedCallNodeIndex (example_props None None) = None
      \<and> rightClickedCallNodeIndex (example_props None None) = None"
    by (simp add: example_defs)
  have r: "rightClickedCallNodeIndex (example_props (Some 1) (Some 3)) = Some 3"
    by (simp add: example_defs)
  from non_arrow_key_null_guard [OF k, of "example_props None None" index_as_path] n
  have a: "handleKeyDown index_as_path (example_props None None) ?E = Some (Inr [])" by blast
  from non_arrow_key_null_guard [OF k, of "example_props (Some 1) (Some 3)" index_as_path] r
  have "handleKeyDown index_as_path (example_props (Some 1) (Some 3)) ?E =
              Some (Inr (if key ?E = ''Enter''
                 then [UpdateBottomBoxContentsAndMaybeOpen ''flame-graph''
                         (getBottomBoxInfoForCallNode (callTree (example_props (Some 1) (Some 3))) 3)]
                 else [HandleCallNodeTransformShortcut ?E (threadsKey (example_props (Some 1) (Some 3))) 3]))"
    by blast
  then have b: "handleKeyDown index_as_path (example_props (Some 1) (Some 3)) ?E
       = Some (Inr [HandleCallNodeTransformShortcut ?E ''thread-0'' 3])"
    by (simp add: example_defs)
  from k a b show ?thesis by simp
qed

text \<open>
  C6: Enter and double click. Called with a call node, \<open>_onCallNodeEnterOrDoubleClick\<close>
  emits exactly one action, which opens the bottom box with the info the call tree gives
  for that call node, under the source \<open>flame-graph\<close>; called with \<open>null\<close> it emits
  nothing. An Enter key event emits what this callback emits for the target of the event,
  the right-clicked call node or else the selected one.
\<close>

theorem enter_opens_bottom_box:
  assumes "key event = ''Enter''"
  shows "onCallNodeEnterOrDoubleClick props None = ([] :: ('k, 'p, 'b) effect list)
     \<and> (\<forall>i. onCallNodeEnterOrDoubleClick props (Some i) =
          ([UpdateBottomBoxContentsAndMaybeOpen ''flame-graph''
             (getBottomBoxInfoForCallNode (callTree props) i)] :: ('k, 'p, 'b) effect list))
     \<and> handleKeyDown gp props event =
          Some (Inr (onCallNodeEnterOrDoubleClick props
             (case rightClickedCallNodeIndex props of
                Some r \<Rightarrow> Some r
              | None \<Rightarrow> selectedCallNodeIndex props)) :: js_error + ('k, 'p, 'b) effect list)"
  using assms
  by (auto simp add: handleKeyDown_def onCallNodeEnterOrDoubleClick_def split: option.splits)

theorem enter_opens_bottom_box_witness:
  "handleKeyDown index_as_path (example_props (Some 1) None) \<lparr>key = ''Enter''\<rparr>
     = Some (Inr [UpdateBottomBoxContentsAndMaybeOpen ''flame-graph'' 101])
   \<and> handleKeyDown index_as_path (example_props None None) \<lparr>key = ''Enter''\<rparr> = Some (Inr [])"
proof -
  have k: "key \<lparr>key = ''Enter''\<rparr> = ''Enter''" by simp
  from enter_opens_bottom_box [OF k, of "example_props (Some 1) None" index_as_path]
    enter_opens_bottom_box [OF k, of "example_props None None" index_as_path]
  show ?thesis by (simp add: example_defs)
qed

section \<open>Termination of the scan\<close>




section \<open>The stack graph\<close>

text \<open>
  C7: the height function of the stack graph. For every sample index (an index of
  \<open>sampleCallNodes\<close>), the result is \<open>null\<close> exactly when the entry of the sample in
  \<open>sampleCallNodes\<close> is \<open>null\<close>, and otherwise it is the depth that the call-node table
  records for the call node of the sample.
\<close>

theorem heightFunction_null_or_depth:
  assumes "0 \<le> sampleIndex" and "sampleIndex < int (length (sampleCallNodes props))"
  shows "(heightFunction props sampleIndex = Null
            \<longleftrightarrow> sampleCallNodes props ! nat sampleIndex = None)
     \<and> (\<forall>c. sampleCallNodes props ! nat sampleIndex = Some c \<and> 0 \<le> c
            \<and> c < int (length (depth (callNodeTable (sg_callNodeInfo props))))
          \<longrightarrow> heightFunction props sampleIndex
                = Val (depth (callNodeTable (sg_callNodeInfo props)) ! nat c))"
proof (cases "sampleCallNodes props ! nat sampleIndex")
  case None
  with assms show ?thesis by (simp add: heightFunction_def js_index_def)
next
  case (Some c)
  with assms have "heightFunction props sampleIndex
      = js_index (depth (callNodeTable (sg_callNodeInfo props))) c"
    by (simp add: heightFunction_def js_index_def)
  with Some show ?thesis by (simp add: js_index_not_Null) (simp add: js_index_def)
qed

theorem heightFunction_null_or_depth_witness:
  "heightFunction example_stack_props 1 = Null
   \<and> heightFunction example_stack_props 2 = Val 1"
proof -
  have r1: "(0::int) \<le> 1" "(1::int) < int (length (sampleCallNodes example_stack_props))"
    and r2: "(0::int) \<le> 2" "(2::int) < int (length (sampleCallNodes example_stack_props))"
    by (simp_all add: example_stack_props_def)
  from heightFunction_null_or_depth [OF r1] heightFunction_null_or_depth [OF r2]
  show ?thesis by (simp add: example_stack_props_def example_table_def)
qed

text \<open>
  C9: the \<open>maxValue\<close> that \<open>render\<close> passes to \<open>ThreadHeightGraph\<close> is the maximum
  entry of the depth column of the call-node table, taken over all call-node indices, and
  0 when the depth column is empty. Depths are counted from 0 at the roots, so no entry
  is negative.
\<close>

theorem render_maxValue_is_max_depth:
  assumes "\<forall>d \<in> set (depth (callNodeTable (sg_callNodeInfo props))). 0 \<le> d"
  shows "(depth (callNodeTable (sg_callNodeInfo props)) = [] \<longrightarrow> render_maxValue props = 0)
     \<and> (depth (callNodeTable (sg_callNodeInfo props)) \<noteq> [] \<longrightarrow>
          render_maxValue props = Max (set (depth (callNodeTable (sg_callNodeInfo props)))))"
proof -
  let ?ds = "depth (callNodeTable (sg_callNodeInfo props))"
  have eq: "render_maxValue props = Max (set (0 # ?ds))"
    by (simp only: render_maxValue_def maxDepth_loop_fold drop_0 Max.set_eq_fold)
  have "render_maxValue props = Max (set ?ds)" if ne: "?ds \<noteq> []"
  proof -
    from ne have "Max (set (0 # ?ds)) = max 0 (Max (set ?ds))" by simp
    moreover from ne assms have "0 \<le> Max (set ?ds)" by (simp add: Max_ge_iff) (meson last_in_set)
    ultimately show ?thesis using eq by simp
  qed
  moreover have "render_maxValue props = 0" if "?ds = []"
    using eq that by simp
  ultimately show ?thesis by blast
qed

theorem render_maxValue_is_max_depth_witness:
  "depth (callNodeTable (sg_callNodeInfo example_stack_props)) = [0, 1, 1, 1, 1]
   \<and> render_maxValue example_stack_props = 1"
proof -
  have ds: "depth (callNodeTable (sg_callNodeInfo example_stack_props)) = [0, 1, 1, 1, 1]"
    by (simp add: example_stack_props_def example_table_def)
  have h: "\<forall>d \<in> set (depth (callNodeTable (sg_callNodeInfo example_stack_props))). 0 \<le> d"
    by (simp add: ds)
  from render_maxValue_is_max_depth [OF h]
  have "render_maxValue example_stack_props = Max (set [0, 1, 1, 1, 1])"
    by (simp add: ds)
  with ds show ?thesis by simp
qed

end
